theory Spec2Isabelle
  imports Complex_Main
begin

section \<open>Data model\<close>

text \<open>
  The blog stores users, categories, posts and comments in relational tables. A table is
  a list of rows; a foreign key is the primary key of the row it points to. The list
  \<open>posts\<close> holds the rows in the order in which the default manager of the Post model
  yields them: no view of the application sorts a queryset itself.
\<close>

record user =
  user_pk :: nat
  username :: string
  first_name :: string
  last_name :: string
  email :: string

record category =
  category_pk :: nat
  slug :: string
  category_title :: string
  category_is_published :: bool

record post =
  post_pk :: nat
  post_author :: nat
  post_category :: "nat option"
  post_location :: "nat option"
  post_title :: string
  post_text :: string
  pub_date :: int
  is_published :: bool

record comment =
  comment_pk :: nat
  comment_author :: nat
  comment_post :: nat
  comment_text :: string
  created_at :: int

text \<open>
  Each table with rows that the views create has a key sequence: the last key handed
  out. A new row takes the next key, also after the newest row was deleted.
\<close>

record db =
  users :: "user list"
  categories :: "category list"
  posts :: "post list"
  comments :: "comment list"
  post_sequence :: nat
  comment_sequence :: nat

section \<open>Requests, responses and exceptions\<close>

datatype http_method = GET | HEAD | POST | PUT | PATCH | DELETE | OPTIONS | TRACE

text \<open>
  \<open>request.user\<close> is either the anonymous user or a logged-in user, who is compared with
  an author by primary key.
\<close>

datatype requester = AnonymousUser | LoggedIn user

text \<open>
  The query parameter \<open>page\<close> as Python's \<open>int()\<close> sees it: absent (\<open>None\<close>, a
  TypeError), a string that \<open>int()\<close> rejects (a ValueError), or the integer it returns.
\<close>

datatype page_param = Absent | NotAnInteger | Number int

type_synonym post_data = "(string \<times> string) list"

record request =
  req_method :: http_method
  req_user :: requester
  GET_page :: page_param
  POST_data :: post_data
  csrf_ok :: bool

datatype error =
  Http404 | MultipleObjectsReturned | TypeError | ZeroDivisionError
  | PageNotAnIntegerError | EmptyPage

text \<open>
  The targets of \<open>redirect\<close>: the URL names \<open>login\<close>, \<open>blog:post_detail\<close> (with the
  primary key), \<open>blog:profile\<close> (with the user name) and \<open>blog:index\<close>, and the login
  page with a \<open>next\<close> parameter, where the login gate sends an anonymous request.
\<close>

datatype redirect_target =
  ToLogin | ToLoginNext | ToPostDetail nat | ToProfile string | ToIndex

text \<open>A form is unbound, or bound to the submitted data, with which it shows its errors.\<close>

datatype form = Unbound | Bound post_data

section \<open>The post managers\<close>

text \<open>\<open>PostManager\<close> inherits \<open>get_queryset\<close>: every row of the table.\<close>

definition PostManager_get_queryset :: "db \<Rightarrow> post list" where
  "PostManager_get_queryset d = posts d"

text \<open>
  The lookup \<open>category__is_published=True\<close> joins the category table: a post without a
  category, or whose category row is not published, is dropped.
\<close>

definition category__is_published :: "db \<Rightarrow> post \<Rightarrow> bool" where
  "category__is_published d p =
     (case post_category p of
        None \<Rightarrow> False
      | Some c \<Rightarrow>
          list_ex (\<lambda>x. category_pk x = c \<and> category_is_published x) (categories d))"

definition PublishedPostManager_get_queryset :: "int \<Rightarrow> db \<Rightarrow> post list" where
  "PublishedPostManager_get_queryset now d =
     filter (\<lambda>p. pub_date p \<le> now \<and> is_published p \<and> category__is_published d p)
       (PostManager_get_queryset d)"

section \<open>The paginator\<close>

text \<open>
  \<open>Paginator(object_list, per_page)\<close> with the framework's defaults (no orphans, an empty
  first page allowed). A page size is a count; the division by a page size of zero is
  the only failure of \<open>num_pages\<close>.
\<close>

record 'a paginator =
  object_list :: "'a list"
  per_page :: nat

record 'a page =
  page_object_list :: "'a list"
  number :: int
  page_paginator :: "'a paginator"

definition Paginator :: "'a list \<Rightarrow> nat \<Rightarrow> 'a paginator" where
  "Paginator objects k = \<lparr>object_list = objects, per_page = k\<rparr>"

definition count :: "'a paginator \<Rightarrow> nat" where
  "count pg = length (object_list pg)"

definition num_pages :: "'a paginator \<Rightarrow> error + nat" where
  "num_pages pg =
     (let hits = max 1 (count pg) in
      if per_page pg = 0 then Inl ZeroDivisionError
      else Inr ((hits + per_page pg - 1) div per_page pg))"

definition validate_number :: "'a paginator \<Rightarrow> page_param \<Rightarrow> error + int" where
  "validate_number pg n =
     (case n of
        Absent \<Rightarrow> Inl PageNotAnIntegerError
      | NotAnInteger \<Rightarrow> Inl PageNotAnIntegerError
      | Number k \<Rightarrow>
          if k < 1 then Inl EmptyPage
          else (case num_pages pg of
                  Inl e \<Rightarrow> Inl e
                | Inr np \<Rightarrow> if k > int np then Inl EmptyPage else Inr k))"

definition paginator_page :: "'a paginator \<Rightarrow> int \<Rightarrow> error + 'a page" where
  "paginator_page pg n =
     (case validate_number pg (Number n) of
        Inl e \<Rightarrow> Inl e
      | Inr k \<Rightarrow>
          (let bottom = nat (k - 1) * per_page pg;
               top = (if bottom + per_page pg \<ge> count pg then count pg
                      else bottom + per_page pg)
           in Inr \<lparr>page_object_list = take (top - bottom) (drop bottom (object_list pg)),
                   number = k, page_paginator = pg\<rparr>))"

definition get_page :: "'a paginator \<Rightarrow> page_param \<Rightarrow> error + 'a page" where
  "get_page pg n =
     (case validate_number pg n of
        Inr k \<Rightarrow> paginator_page pg k
      | Inl PageNotAnIntegerError \<Rightarrow> paginator_page pg 1
      | Inl EmptyPage \<Rightarrow>
          (case num_pages pg of
             Inl e \<Rightarrow> Inl e
           | Inr np \<Rightarrow> paginator_page pg (int np))
      | Inl e \<Rightarrow> Inl e)"

definition has_next :: "'a page \<Rightarrow> error + bool" where
  "has_next p =
     (case num_pages (page_paginator p) of
        Inl e \<Rightarrow> Inl e
      | Inr np \<Rightarrow> Inr (number p < int np))"

definition has_previous :: "'a page \<Rightarrow> bool" where
  "has_previous p = (number p > 1)"

definition paginate_objects :: "request \<Rightarrow> 'a list \<Rightarrow> nat \<Rightarrow> error + 'a page" where
  "paginate_objects request objects_list per_page_arg =
     (let paginator = Paginator objects_list per_page_arg;
          page_number = GET_page request
      in get_page paginator page_number)"

text \<open>
  The number of the last page in the words of the specification: the ceiling of the
  number of records over the page size, and one page when there are no records.
\<close>

definition last_page_number :: "nat \<Rightarrow> nat \<Rightarrow> nat" where
  "last_page_number N K = max 1 (nat \<lceil>real N / real K\<rceil>)"

section \<open>The home listing\<close>

text \<open>
  The view overrides \<open>get_queryset\<close>; its attribute \<open>ordering\<close> is read only by the
  inherited \<open>get_queryset\<close> and has no effect on the rows returned here.
\<close>

definition PostListView_get_queryset :: "int \<Rightarrow> db \<Rightarrow> post list" where
  "PostListView_get_queryset now d = PublishedPostManager_get_queryset now d"


section \<open>Responses\<close>

datatype template_context =
    NoContext
  | UserFormContext form
  | ProfileContext user "post page"
  | CategoryContext category "post page"
  | PostFormContext form
  | PostContext post
  | DetailContext post "comment list"
  | CommentFormContext form comment
  | CommentContext comment

datatype response =
    Render string nat template_context
  | Redirect redirect_target
  | MethodNotAllowed
  | OptionsResponse
  | ServerError

fun status :: "response \<Rightarrow> nat" where
  "status (Render template code ctx) = code"
| "status (Redirect target) = 302"
| "status MethodNotAllowed = 405"
| "status OptionsResponse = 200"
| "status ServerError = 500"

section \<open>The forms\<close>

text \<open>
  The form classes are declared outside the views and are parameters here. Each gives
  what a bound form would save: \<open>None\<close> when validation fails, otherwise the cleaned
  comment text, or the instance with the cleaned fields assigned (for a post without an
  instance, the new post).
\<close>

record forms =
  CommentForm :: "post_data \<Rightarrow> string option"
  PostForm :: "post_data \<Rightarrow> post option \<Rightarrow> post option"
  ProfileForm :: "post_data \<Rightarrow> user \<Rightarrow> user option"

text \<open>\<open>request.POST or None\<close>: an empty query dictionary is false.\<close>

definition POST_or_None :: "request \<Rightarrow> post_data option" where
  "POST_or_None request = (if POST_data request = [] then None else Some (POST_data request))"

definition form_of :: "post_data option \<Rightarrow> form" where
  "form_of data = (case data of None \<Rightarrow> Unbound | Some x \<Rightarrow> Bound x)"

section \<open>Queries and writes\<close>

definition get_object_or_404 :: "('a \<Rightarrow> bool) \<Rightarrow> 'a list \<Rightarrow> error + 'a" where
  "get_object_or_404 P rows =
     (case filter P rows of
        [] \<Rightarrow> Inl Http404
      | [x] \<Rightarrow> Inr x
      | x # y # zs \<Rightarrow> Inl MultipleObjectsReturned)"

text \<open>
  \<open>author != request.user\<close> compares primary keys; the anonymous user equals no author.
  \<open>request.user.username\<close> is the empty string for the anonymous user.
\<close>

fun is_user :: "nat \<Rightarrow> requester \<Rightarrow> bool" where
  "is_user a AnonymousUser = False"
| "is_user a (LoggedIn u) = (a = user_pk u)"

fun request_username :: "requester \<Rightarrow> string" where
  "request_username AnonymousUser = []"
| "request_username (LoggedIn u) = username u"

definition save_user :: "user \<Rightarrow> db \<Rightarrow> db" where
  "save_user u d = d\<lparr>users := map (\<lambda>x. if user_pk x = user_pk u then u else x) (users d)\<rparr>"

definition save_post :: "post \<Rightarrow> db \<Rightarrow> db" where
  "save_post p d = d\<lparr>posts := map (\<lambda>x. if post_pk x = post_pk p then p else x) (posts d)\<rparr>"

definition create_post :: "post \<Rightarrow> db \<Rightarrow> db" where
  "create_post p d =
     d\<lparr>posts := posts d @ [p\<lparr>post_pk := Suc (post_sequence d)\<rparr>],
       post_sequence := Suc (post_sequence d)\<rparr>"

text \<open>Deleting a post removes its row and, by the foreign key of a comment, its comments.\<close>

definition delete_post :: "post \<Rightarrow> db \<Rightarrow> db" where
  "delete_post p d =
     d\<lparr>posts := filter (\<lambda>x. post_pk x \<noteq> post_pk p) (posts d),
       comments := filter (\<lambda>c. comment_post c \<noteq> post_pk p) (comments d)\<rparr>"

definition save_comment :: "comment \<Rightarrow> db \<Rightarrow> db" where
  "save_comment c d =
     d\<lparr>comments := map (\<lambda>x. if comment_pk x = comment_pk c then c else x) (comments d)\<rparr>"

definition create_comment :: "comment \<Rightarrow> db \<Rightarrow> db" where
  "create_comment c d =
     d\<lparr>comments := comments d @ [c\<lparr>comment_pk := Suc (comment_sequence d)\<rparr>],
       comment_sequence := Suc (comment_sequence d)\<rparr>"

definition delete_comment_row :: "comment \<Rightarrow> db \<Rightarrow> db" where
  "delete_comment_row c d =
     d\<lparr>comments := filter (\<lambda>x. comment_pk x \<noteq> comment_pk c) (comments d)\<rparr>"

section \<open>The error pages\<close>

definition page_not_found :: "request \<Rightarrow> error \<Rightarrow> response" where
  "page_not_found request exception = Render ''core/404.html'' 404 NoContext"

definition csrf_failure :: "request \<Rightarrow> string \<Rightarrow> response" where
  "csrf_failure request reason = Render ''core/403csrf.html'' 403 NoContext"

section \<open>The views\<close>

text \<open>
  A view takes the request, its URL arguments and the database, and either raises or
  returns a response and the database it leaves. No view writes before it raises.
  \<open>now\<close> is the clock reading of the request.
\<close>

type_synonym outcome = "error + response \<times> db"

definition edit_profile :: "forms \<Rightarrow> request \<Rightarrow> string \<Rightarrow> db \<Rightarrow> outcome" where
  "edit_profile fs request name d =
     (case get_object_or_404 (\<lambda>u. username u = name) (users d) of
        Inl e \<Rightarrow> Inl e
      | Inr user \<Rightarrow>
          if username user \<noteq> request_username (req_user request)
          then Inr (Redirect ToLogin, d)
          else
            (let form = form_of (POST_or_None request) in
             case Option.bind (POST_or_None request) (\<lambda>data. ProfileForm fs data user) of
               Some saved \<Rightarrow>
                 Inr (Render ''blog/user.html'' 200 (UserFormContext form),
                      save_user (saved\<lparr>user_pk := user_pk user\<rparr>) d)
             | None \<Rightarrow> Inr (Render ''blog/user.html'' 200 (UserFormContext form), d)))"

definition info_profile :: "request \<Rightarrow> string \<Rightarrow> db \<Rightarrow> outcome" where
  "info_profile request name d =
     (case get_object_or_404 (\<lambda>u. username u = name) (users d) of
        Inl e \<Rightarrow> Inl e
      | Inr user \<Rightarrow>
          (let profile_post =
                 filter (\<lambda>p. post_author p = user_pk user) (PostManager_get_queryset d)
           in case paginate_objects request profile_post 10 of
                Inl e \<Rightarrow> Inl e
              | Inr page_obj \<Rightarrow>
                  Inr (Render ''blog/profile.html'' 200 (ProfileContext user page_obj), d)))"

definition category_posts :: "int \<Rightarrow> request \<Rightarrow> string \<Rightarrow> db \<Rightarrow> outcome" where
  "category_posts now request category_slug d =
     (case get_object_or_404 (\<lambda>c. category_is_published c \<and> slug c = category_slug)
             (categories d) of
        Inl e \<Rightarrow> Inl e
      | Inr cat \<Rightarrow>
          (let post_list =
                 filter (\<lambda>p. post_category p = Some (category_pk cat))
                   (PublishedPostManager_get_queryset now d)
           in case paginate_objects request post_list 10 of
                Inl e \<Rightarrow> Inl e
              | Inr page_obj \<Rightarrow>
                  Inr (Render ''blog/category.html'' 200 (CategoryContext cat page_obj), d)))"

text \<open>
  The login gate of \<open>LoginRequiredMixin\<close> and \<open>login_required\<close>: an anonymous request is
  sent to the login page before the view runs; the view runs with the logged-in user as
  \<open>request.user\<close>.
\<close>

definition login_required :: "request \<Rightarrow> db \<Rightarrow> (user \<Rightarrow> outcome) \<Rightarrow> outcome" where
  "login_required request d view =
     (case req_user request of
        AnonymousUser \<Rightarrow> Inr (Redirect ToLoginNext, d)
      | LoggedIn user \<Rightarrow> view user)"

text \<open>
  \<open>CreateView\<close>: \<open>get\<close> shows the empty form, \<open>post\<close> (also reached by PUT) binds the
  form to the submitted data and saves it or shows it again; \<open>form_valid\<close> sets the
  author first.
\<close>

definition PostCreateView :: "forms \<Rightarrow> request \<Rightarrow> db \<Rightarrow> outcome" where
  "PostCreateView fs request d =
     login_required request d (\<lambda>user.
        let get = Inr (Render ''blog/create.html'' 200 (PostFormContext Unbound), d);
            post =
              (case PostForm fs (POST_data request) None of
                 None \<Rightarrow>
                   Inr (Render ''blog/create.html'' 200
                          (PostFormContext (Bound (POST_data request))), d)
               | Some p \<Rightarrow>
                   Inr (Redirect (ToProfile (username user)),
                        create_post (p\<lparr>post_author := user_pk user\<rparr>) d))
        in case req_method request of
             GET \<Rightarrow> get | HEAD \<Rightarrow> get
           | POST \<Rightarrow> post | PUT \<Rightarrow> post
           | OPTIONS \<Rightarrow> Inr (OptionsResponse, d)
           | _ \<Rightarrow> Inr (MethodNotAllowed, d))"

text \<open>
  The generic views and \<open>get_object_or_404(Post, ...)\<close> query the default manager of the
  model, which is \<open>objects\<close>, the manager of all rows that the detail view filters.
\<close>

definition SingleObjectMixin_get_object :: "nat \<Rightarrow> db \<Rightarrow> error + post" where
  "SingleObjectMixin_get_object pk d =
     get_object_or_404 (\<lambda>p. post_pk p = pk) (PostManager_get_queryset d)"

definition DispatchMixin_dispatch :: "request \<Rightarrow> nat \<Rightarrow> db \<Rightarrow> outcome \<Rightarrow> outcome" where
  "DispatchMixin_dispatch request pk d super_dispatch =
     (case SingleObjectMixin_get_object pk d of
        Inl e \<Rightarrow> Inl e
      | Inr obj \<Rightarrow>
          if \<not> is_user (post_author obj) (req_user request)
          then Inr (Redirect (ToPostDetail pk), d)
          else super_dispatch)"

definition UpdateView_dispatch :: "forms \<Rightarrow> request \<Rightarrow> nat \<Rightarrow> db \<Rightarrow> outcome" where
  "UpdateView_dispatch fs request pk d =
     (let get =
            (case SingleObjectMixin_get_object pk d of
               Inl e \<Rightarrow> Inl e
             | Inr obj \<Rightarrow> Inr (Render ''blog/create.html'' 200 (PostFormContext Unbound), d));
          post =
            (case SingleObjectMixin_get_object pk d of
               Inl e \<Rightarrow> Inl e
             | Inr obj \<Rightarrow>
                 (case PostForm fs (POST_data request) (Some obj) of
                    None \<Rightarrow>
                      Inr (Render ''blog/create.html'' 200
                             (PostFormContext (Bound (POST_data request))), d)
                  | Some p \<Rightarrow>
                      Inr (Redirect (ToPostDetail pk),
                           save_post (p\<lparr>post_pk := post_pk obj\<rparr>) d)))
      in case req_method request of
           GET \<Rightarrow> get | HEAD \<Rightarrow> get
         | POST \<Rightarrow> post | PUT \<Rightarrow> post
         | OPTIONS \<Rightarrow> Inr (OptionsResponse, d)
         | _ \<Rightarrow> Inr (MethodNotAllowed, d))"

definition PostUpdateView :: "forms \<Rightarrow> request \<Rightarrow> nat \<Rightarrow> db \<Rightarrow> outcome" where
  "PostUpdateView fs request pk d =
     login_required request d (\<lambda>user.
        DispatchMixin_dispatch request pk d (UpdateView_dispatch fs request pk d))"

definition DeleteView_dispatch :: "request \<Rightarrow> nat \<Rightarrow> db \<Rightarrow> outcome" where
  "DeleteView_dispatch request pk d =
     (let get =
            (case SingleObjectMixin_get_object pk d of
               Inl e \<Rightarrow> Inl e
             | Inr obj \<Rightarrow> Inr (Render ''blog/create.html'' 200 (PostContext obj), d));
          delete =
            (case SingleObjectMixin_get_object pk d of
               Inl e \<Rightarrow> Inl e
             | Inr obj \<Rightarrow> Inr (Redirect ToIndex, delete_post obj d))
      in case req_method request of
           GET \<Rightarrow> get | HEAD \<Rightarrow> get
         | POST \<Rightarrow> delete | DELETE \<Rightarrow> delete
         | OPTIONS \<Rightarrow> Inr (OptionsResponse, d)
         | _ \<Rightarrow> Inr (MethodNotAllowed, d))"

definition PostDeleteView :: "request \<Rightarrow> nat \<Rightarrow> db \<Rightarrow> outcome" where
  "PostDeleteView request pk d =
     login_required request d (\<lambda>user.
        DispatchMixin_dispatch request pk d (DeleteView_dispatch request pk d))"

text \<open>
  \<open>PostDetailView.get_object\<close>. The lookup \<open>author=request.user\<close> needs a user row: with
  the anonymous user the query raises a TypeError.
\<close>

definition PostDetailView_get_object :: "request \<Rightarrow> nat \<Rightarrow> db \<Rightarrow> error + post" where
  "PostDetailView_get_object request pk d =
     (case req_user request of
        AnonymousUser \<Rightarrow> Inl TypeError
      | LoggedIn u \<Rightarrow>
          (let queryset =
                 filter (\<lambda>p. is_published p \<or> post_author p = user_pk u)
                   (PostManager_get_queryset d)
           in get_object_or_404 (\<lambda>p. post_pk p = pk) queryset))"

definition PostDetailView :: "request \<Rightarrow> nat \<Rightarrow> db \<Rightarrow> outcome" where
  "PostDetailView request pk d =
     (let get =
            (case PostDetailView_get_object request pk d of
               Inl e \<Rightarrow> Inl e
             | Inr obj \<Rightarrow>
                 Inr (Render ''blog/detail.html'' 200
                        (DetailContext obj
                           (filter (\<lambda>c. comment_post c = post_pk obj) (comments d))), d))
      in case req_method request of
           GET \<Rightarrow> get | HEAD \<Rightarrow> get
         | OPTIONS \<Rightarrow> Inr (OptionsResponse, d)
         | _ \<Rightarrow> Inr (MethodNotAllowed, d))"

definition add_comment :: "forms \<Rightarrow> int \<Rightarrow> request \<Rightarrow> nat \<Rightarrow> db \<Rightarrow> outcome" where
  "add_comment fs now request pk d =
     login_required request d (\<lambda>user.
        case get_object_or_404 (\<lambda>p. post_pk p = pk) (PostManager_get_queryset d) of
          Inl e \<Rightarrow> Inl e
        | Inr post \<Rightarrow>
            (case Option.bind (POST_or_None request) (CommentForm fs) of
               Some text \<Rightarrow>
                 Inr (Redirect (ToPostDetail pk),
                      create_comment
                        \<lparr>comment_pk = 0,
                         comment_author = user_pk user,
                         comment_post = post_pk post,
                         comment_text = text,
                         created_at = now\<rparr> d)
             | None \<Rightarrow> Inr (Redirect (ToPostDetail pk), d)))"

definition edit_comment :: "forms \<Rightarrow> request \<Rightarrow> nat \<Rightarrow> nat \<Rightarrow> db \<Rightarrow> outcome" where
  "edit_comment fs request comment_id post_id d =
     login_required request d (\<lambda>user.
        case get_object_or_404 (\<lambda>c. comment_pk c = comment_id \<and> comment_post c = post_id)
               (comments d) of
          Inl e \<Rightarrow> Inl e
        | Inr inst \<Rightarrow>
            (let form = form_of (POST_or_None request) in
             if \<not> is_user (comment_author inst) (req_user request)
             then Inr (Redirect (ToPostDetail post_id), d)
             else
               (case Option.bind (POST_or_None request) (CommentForm fs) of
                  Some text \<Rightarrow>
                    Inr (Redirect (ToPostDetail post_id),
                         save_comment (inst\<lparr>comment_text := text\<rparr>) d)
                | None \<Rightarrow>
                    Inr (Render ''blog/comment.html'' 200 (CommentFormContext form inst), d))))"

definition delete_comment :: "request \<Rightarrow> nat \<Rightarrow> nat \<Rightarrow> db \<Rightarrow> outcome" where
  "delete_comment request comment_id post_id d =
     login_required request d (\<lambda>user.
        case get_object_or_404 (\<lambda>c. comment_pk c = comment_id \<and> comment_post c = post_id)
               (comments d) of
          Inl e \<Rightarrow> Inl e
        | Inr c \<Rightarrow>
            if \<not> is_user (comment_author c) (req_user request)
            then Inr (Redirect (ToPostDetail post_id), d)
            else if req_method request = POST
            then Inr (Redirect (ToPostDetail post_id), delete_comment_row c d)
            else Inr (Render ''blog/comment.html'' 200 (CommentContext c), d))"

section \<open>From a request to a response\<close>

text \<open>
  Modelled from the spec: the URL configuration and the settings that register
  \<open>page_not_found\<close> for a raised \<open>Http404\<close> and \<open>csrf_failure\<close> for a rejected CSRF
  check are not among the views; the routes and the two error pages are those the
  specification lists. The CSRF check runs before the view, on the methods that are
  not safe; an exception other than \<open>Http404\<close> ends in a server error.
\<close>

datatype view_call =
    Call_category_posts string
  | Call_info_profile string
  | Call_edit_profile string
  | Call_PostCreateView
  | Call_PostDetailView nat
  | Call_PostUpdateView nat
  | Call_PostDeleteView nat
  | Call_add_comment nat
  | Call_edit_comment nat nat
  | Call_delete_comment nat nat

fun call_view :: "forms \<Rightarrow> int \<Rightarrow> request \<Rightarrow> view_call \<Rightarrow> db \<Rightarrow> outcome" where
  "call_view fs now request (Call_category_posts s) d = category_posts now request s d"
| "call_view fs now request (Call_info_profile name) d = info_profile request name d"
| "call_view fs now request (Call_edit_profile name) d = edit_profile fs request name d"
| "call_view fs now request Call_PostCreateView d = PostCreateView fs request d"
| "call_view fs now request (Call_PostDetailView pk) d = PostDetailView request pk d"
| "call_view fs now request (Call_PostUpdateView pk) d = PostUpdateView fs request pk d"
| "call_view fs now request (Call_PostDeleteView pk) d = PostDeleteView request pk d"
| "call_view fs now request (Call_add_comment pk) d = add_comment fs now request pk d"
| "call_view fs now request (Call_edit_comment c p) d = edit_comment fs request c p d"
| "call_view fs now request (Call_delete_comment c p) d = delete_comment request c p d"

definition csrf_rejects :: "request \<Rightarrow> bool" where
  "csrf_rejects request =
     (req_method request \<notin> {GET, HEAD, OPTIONS, TRACE} \<and> \<not> csrf_ok request)"

definition serve :: "forms \<Rightarrow> int \<Rightarrow> request \<Rightarrow> view_call \<Rightarrow> db \<Rightarrow> response \<times> db" where
  "serve fs now request call d =
     (if csrf_rejects request then (csrf_failure request [], d)
      else
        (case call_view fs now request call d of
           Inl Http404 \<Rightarrow> (page_not_found request Http404, d)
         | Inl e \<Rightarrow> (ServerError, d)
         | Inr r \<Rightarrow> r))"

text \<open>
  The record a call targets does not exist: no category with the slug, no user with the
  name, no post with the primary key, no comment with the key under the post.
\<close>

fun target_missing :: "view_call \<Rightarrow> db \<Rightarrow> bool" where
  "target_missing (Call_category_posts s) d = (filter (\<lambda>c. slug c = s) (categories d) = [])"
| "target_missing (Call_info_profile name) d = (filter (\<lambda>u. username u = name) (users d) = [])"
| "target_missing (Call_edit_profile name) d = (filter (\<lambda>u. username u = name) (users d) = [])"
| "target_missing Call_PostCreateView d = False"
| "target_missing (Call_PostDetailView pk) d = (filter (\<lambda>p. post_pk p = pk) (posts d) = [])"
| "target_missing (Call_PostUpdateView pk) d = (filter (\<lambda>p. post_pk p = pk) (posts d) = [])"
| "target_missing (Call_PostDeleteView pk) d = (filter (\<lambda>p. post_pk p = pk) (posts d) = [])"
| "target_missing (Call_add_comment pk) d = (filter (\<lambda>p. post_pk p = pk) (posts d) = [])"
| "target_missing (Call_edit_comment c p) d =
     (filter (\<lambda>x. comment_pk x = c \<and> comment_post x = p) (comments d) = [])"
| "target_missing (Call_delete_comment c p) d =
     (filter (\<lambda>x. comment_pk x = c \<and> comment_post x = p) (comments d) = [])"

text \<open>The views behind the login gate: those that call \<open>login_required\<close>.\<close>

fun login_gated :: "view_call \<Rightarrow> bool" where
  "login_gated (Call_category_posts s) = False"
| "login_gated (Call_info_profile name) = False"
| "login_gated (Call_edit_profile name) = False"
| "login_gated Call_PostCreateView = True"
| "login_gated (Call_PostDetailView pk) = False"
| "login_gated (Call_PostUpdateView pk) = True"
| "login_gated (Call_PostDeleteView pk) = True"
| "login_gated (Call_add_comment pk) = True"
| "login_gated (Call_edit_comment c p) = True"
| "login_gated (Call_delete_comment c p) = True"

section \<open>A sample blog\<close>

text \<open>
  Two users, a published and a hidden category, and five posts by the first user: two
  visible ones, a scheduled one, one in the hidden category and one withdrawn; one
  comment. The clock of the examples reads 100.
\<close>

definition alice :: user where
  "alice = \<lparr>user_pk = 1, username = ''alice'', first_name = ''Alice'', last_name = ''A'',
            email = ''a@example.org''\<rparr>"

definition bob :: user where
  "bob = \<lparr>user_pk = 2, username = ''bob'', first_name = ''Bob'', last_name = ''B'',
          email = ''b@example.org''\<rparr>"

definition news :: category where
  "news = \<lparr>category_pk = 1, slug = ''news'', category_title = ''News'',
           category_is_published = True\<rparr>"

definition drafts :: category where
  "drafts = \<lparr>category_pk = 2, slug = ''drafts'', category_title = ''Drafts'',
             category_is_published = False\<rparr>"

definition sample_post :: "nat \<Rightarrow> nat \<Rightarrow> int \<Rightarrow> bool \<Rightarrow> post" where
  "sample_post pk cat date pub =
     \<lparr>post_pk = pk, post_author = 1, post_category = Some cat, post_location = None,
      post_title = ''title'', post_text = ''text'', pub_date = date, is_published = pub\<rparr>"

definition first_comment :: comment where
  "first_comment = \<lparr>comment_pk = 1, comment_author = 1, comment_post = 1,
                    comment_text = ''first'', created_at = 50\<rparr>"

definition sample_db :: db where
  "sample_db =
     \<lparr>users = [alice, bob],
      categories = [news, drafts],
      posts = [sample_post 1 1 10 True, sample_post 2 1 20 True, sample_post 3 1 500 True,
               sample_post 4 2 10 True, sample_post 5 1 10 False],
      comments = [first_comment],
      post_sequence = 5,
      comment_sequence = 1\<rparr>"


definition sample_request :: "http_method \<Rightarrow> requester \<Rightarrow> post_data \<Rightarrow> page_param \<Rightarrow> request" where
  "sample_request m u data pg =
     \<lparr>req_method = m, req_user = u, GET_page = pg, POST_data = data, csrf_ok = True\<rparr>"

text \<open>Sample forms: each requires one field to be present and not empty.\<close>

definition required_field :: "string \<Rightarrow> post_data \<Rightarrow> string option" where
  "required_field key data =
     (case map_of data key of
        None \<Rightarrow> None
      | Some v \<Rightarrow> if v = [] then None else Some v)"

definition sample_forms :: forms where
  "sample_forms =
     \<lparr>CommentForm = required_field ''text'',
      PostForm = (\<lambda>data inst.
        map_option
          (\<lambda>t. (case inst of None \<Rightarrow> sample_post 0 1 0 True | Some p \<Rightarrow> p)\<lparr>post_title := t\<rparr>)
          (required_field ''title'' data)),
      ProfileForm = (\<lambda>data u.
        map_option (\<lambda>n. u\<lparr>first_name := n\<rparr>) (required_field ''first_name'' data))\<rparr>"

section \<open>The home listing shows exactly the visible posts\<close>

text \<open>
  C1. A post appears in the public home listing if and only if it is a stored post whose
  published flag is set, whose publish timestamp is not later than the current time and
  whose category is a stored category with its published flag set.
\<close>

theorem home_listing_iff_visible:
  "p \<in> set (PostListView_get_queryset now d) \<longleftrightarrow>
     p \<in> set (posts d) \<and> is_published p \<and> pub_date p \<le> now
     \<and> (\<exists>c\<in>set (categories d).
           post_category p = Some (category_pk c) \<and> category_is_published c)"
proof -
  have "category__is_published d p \<longleftrightarrow>
     (\<exists>c\<in>set (categories d).
        post_category p = Some (category_pk c) \<and> category_is_published c)"
    by (cases "post_category p") (auto simp: category__is_published_def list_ex_iff)
  then show ?thesis
    by (auto simp: PostListView_get_queryset_def PublishedPostManager_get_queryset_def
        PostManager_get_queryset_def)
qed

text \<open>
  In the sample blog at time 100 the first post is listed; the scheduled post, the post
  of the hidden category and the withdrawn post are not.
\<close>

theorem home_listing_iff_visible_witness:
  "sample_post 1 1 10 True \<in> set (PostListView_get_queryset 100 sample_db)
   \<and> sample_post 3 1 500 True \<notin> set (PostListView_get_queryset 100 sample_db)
   \<and> sample_post 4 2 10 True \<notin> set (PostListView_get_queryset 100 sample_db)
   \<and> sample_post 5 1 10 False \<notin> set (PostListView_get_queryset 100 sample_db)"
  using home_listing_iff_visible [of "sample_post 1 1 10 True" 100 sample_db]
    home_listing_iff_visible [of "sample_post 3 1 500 True" 100 sample_db]
    home_listing_iff_visible [of "sample_post 4 2 10 True" 100 sample_db]
    home_listing_iff_visible [of "sample_post 5 1 10 False" 100 sample_db]
  by (simp add: sample_db_def sample_post_def news_def drafts_def)

section \<open>Pagination\<close>

text \<open>The ceiling of a quotient of natural numbers, by integer division.\<close>

lemma ceil_div_rem:
  fixes N K :: nat
  assumes "0 < K" "N mod K \<noteq> 0"
  shows "(N + K - 1) div K = Suc (N div K)"
proof -
  define q where "q = N div K"
  define r where "r = N mod K"
  have eq: "N = q * K + r" by (simp add: q_def r_def)
  have r: "0 < r" "r < K" using assms by (simp_all add: r_def)
  have s1: "K * Suc q = q * K + K" and s2: "K * Suc (Suc q) = q * K + K + K" by simp_all
  have "K * Suc q \<le> N + K - 1" unfolding s1 eq using r by linarith
  moreover have "N + K - 1 < K * Suc (Suc q)" unfolding s2 eq using r by linarith
  ultimately have "(N + K - 1) div K = Suc q" by (rule div_nat_eqI)
  then show ?thesis by (simp add: q_def)
qed

lemma ceil_div_exact:
  fixes N K :: nat
  assumes "0 < K" "N mod K = 0"
  shows "(N + K - 1) div K = N div K"
proof -
  define q where "q = N div K"
  have eq: "N = q * K" using assms by (auto simp: q_def)
  have s0: "K * q = q * K" and s1: "K * Suc q = q * K + K" by simp_all
  have "K * q \<le> N + K - 1" unfolding s0 eq using assms(1) by linarith
  moreover have "N + K - 1 < K * Suc q" unfolding s1 eq using assms(1) by linarith
  ultimately have "(N + K - 1) div K = q" by (rule div_nat_eqI)
  then show ?thesis by (simp add: q_def)
qed

lemma ceiling_as_div:
  fixes N K :: nat
  assumes "0 < K"
  shows "nat \<lceil>real N / real K\<rceil> = (N + K - 1) div K"
proof -
  define L where "L = (N + K - 1) div K"
  have lo: "N \<le> L * K"
  proof (cases "N mod K = 0")
    case True
    then show ?thesis using ceil_div_exact[OF assms True] by (auto simp: L_def)
  next
    case False
    have "N = (N div K) * K + N mod K" by simp
    also have "\<dots> \<le> (N div K) * K + K" using mod_less_divisor[OF assms, of N] by linarith
    finally show ?thesis using ceil_div_rem[OF assms False] by (simp add: L_def)
  qed
  have hi: "N = 0 \<or> (L - 1) * K < N"
  proof (cases "N mod K = 0")
    case True
    show ?thesis
    proof (cases "N = 0")
      case False
      have "L = N div K" using ceil_div_exact[OF assms True] by (simp add: L_def)
      moreover have "N = (N div K) * K" using True by auto
      moreover have "0 < N div K" using False calculation(2) by (cases "N div K") auto
      ultimately show ?thesis using assms
        by (metis False One_nat_def Suc_pred diff_less less_numeral_extra(1) mult.commute mult_less_cancel1 nat_0_less_mult_iff)
    qed simp
  next
    case False
    have "L - 1 = N div K" using ceil_div_rem[OF assms False] by (simp add: L_def)
    moreover have "N = (N div K) * K + N mod K" by simp
    ultimately show ?thesis using False by (metis less_add_same_cancel1 neq0_conv)
  qed
  have "\<lceil>real N / real K\<rceil> = int L"
  proof (rule ceiling_unique)
    show "real_of_int (int L) - 1 < real N / real K"
    proof (cases "N = 0")
      case True
      then have "L = 0" using assms by (simp add: L_def)
      then show ?thesis using True by simp
    next
      case False
      then have "(L - 1) * K < N" using hi by simp
      then have "real ((L - 1) * K) < real N" by (simp only: of_nat_less_iff)
      moreover have "1 \<le> L" using False lo by (cases L) auto
      ultimately have "(real L - 1) * real K < real N" by (simp add: of_nat_diff)
      then show ?thesis using assms by (simp add: pos_less_divide_eq)
    qed
    have "real N \<le> real (L * K)" using lo by (simp only: of_nat_le_iff)
    then show "real N / real K \<le> real_of_int (int L)" using assms by (simp add: pos_divide_le_eq)
  qed
  then show ?thesis by (simp add: L_def)
qed


lemma num_pages_Paginator:
  assumes "0 < K"
  shows "num_pages (Paginator xs K) = Inr (last_page_number (length xs) K)"
proof (cases "length xs = 0")
  case True
  then show ?thesis using assms
    by (simp add: num_pages_def Paginator_def count_def last_page_number_def)
next
  case False
  then have pos: "0 < length xs" by simp
  have "K \<le> length xs + K - 1" using pos by linarith
  then have "1 \<le> (length xs + K - 1) div K"
    using assms by (simp add: Suc_le_eq div_greater_zero_iff)
  then have m1: "max 1 ((length xs + K - 1) div K) = (length xs + K - 1) div K" by linarith
  have m2: "max 1 (length xs) = length xs" using pos by linarith
  have "num_pages (Paginator xs K) = Inr ((max 1 (length xs) + K - 1) div K)"
    using assms by (simp add: num_pages_def Paginator_def count_def)
  also have "\<dots> = Inr (last_page_number (length xs) K)"
    unfolding m2 last_page_number_def ceiling_as_div[OF assms] m1 ..
  finally show ?thesis .
qed

lemma last_page_number_ge1: "1 \<le> last_page_number N K"
  by (simp add: last_page_number_def)

lemma paginator_page_valid:
  assumes "0 < K" "1 \<le> n" "n \<le> int (last_page_number (length xs) K)"
  shows "paginator_page (Paginator xs K) n =
     Inr \<lparr>page_object_list = take K (drop (nat (n - 1) * K) xs), number = n,
          page_paginator = Paginator xs K\<rparr>"
  using assms num_pages_Paginator[OF assms(1), of xs]
  by (simp add: paginator_page_def validate_number_def Let_def count_def)
    (simp add: Paginator_def)


lemma get_page_not_an_integer:
  assumes "0 < K" "n = Absent \<or> n = NotAnInteger"
  shows "get_page (Paginator xs K) n =
     Inr \<lparr>page_object_list = take K xs, number = 1, page_paginator = Paginator xs K\<rparr>"
  using assms paginator_page_valid[OF assms(1), of 1 xs] last_page_number_ge1[of "length xs" K]
  by (auto simp: get_page_def validate_number_def)

lemma get_page_in_range:
  assumes "0 < K" "1 \<le> n" "n \<le> int (last_page_number (length xs) K)"
  shows "get_page (Paginator xs K) (Number n) =
     Inr \<lparr>page_object_list = take K (drop (nat (n - 1) * K) xs), number = n,
          page_paginator = Paginator xs K\<rparr>"
  using assms paginator_page_valid[OF assms] num_pages_Paginator[OF assms(1), of xs]
  by (simp add: get_page_def validate_number_def)

lemma get_page_out_of_range:
  assumes "0 < K" "n < 1 \<or> int (last_page_number (length xs) K) < n"
  shows "get_page (Paginator xs K) (Number n) =
     Inr \<lparr>page_object_list = take K (drop ((last_page_number (length xs) K - 1) * K) xs),
          number = int (last_page_number (length xs) K),
          page_paginator = Paginator xs K\<rparr>"
proof -
  let ?L = "last_page_number (length xs) K"
  have v: "validate_number (Paginator xs K) (Number n) = Inl EmptyPage"
    using assms num_pages_Paginator[OF assms(1), of xs] by (auto simp: validate_number_def)
  have "1 \<le> int ?L" using last_page_number_ge1[of "length xs" K] by simp
  then have "paginator_page (Paginator xs K) (int ?L) =
     Inr \<lparr>page_object_list = take K (drop (nat (int ?L - 1) * K) xs), number = int ?L,
          page_paginator = Paginator xs K\<rparr>"
    by (intro paginator_page_valid[OF assms(1)]) simp_all
  moreover have "nat (int ?L - 1) = ?L - 1" by simp
  ultimately show ?thesis
    using v num_pages_Paginator[OF assms(1), of xs] by (simp add: get_page_def)
qed

lemma last_page_length:
  assumes "0 < K" "xs \<noteq> []"
  shows "last_page_number (length xs) K = nat \<lceil>real (length xs) / real K\<rceil>"
    and "length (take K (drop ((last_page_number (length xs) K - 1) * K) xs)) =
         (if length xs mod K = 0 then K else length xs mod K)"
proof -
  let ?N = "length xs"
  have pos: "0 < ?N" using assms(2) by simp
  have "K \<le> ?N + K - 1" using pos by linarith
  then have "1 \<le> (?N + K - 1) div K" using assms(1) by (simp add: Suc_le_eq div_greater_zero_iff)
  then show L: "last_page_number ?N K = nat \<lceil>real ?N / real K\<rceil>"
    unfolding last_page_number_def ceiling_as_div[OF assms(1)] by linarith
  have Ldiv: "last_page_number ?N K = (?N + K - 1) div K"
    unfolding L ceiling_as_div[OF assms(1)] ..
  show "length (take K (drop ((last_page_number ?N K - 1) * K) xs)) =
         (if ?N mod K = 0 then K else ?N mod K)"
  proof (cases "?N mod K = 0")
    case True
    have q: "?N = (?N div K) * K" using True by auto
    have "0 < ?N div K" using pos q by (cases "?N div K") auto
    then have "(?N div K - 1) * K + K = ?N div K * K"
      by (cases "?N div K") simp_all
    then have "?N - (?N div K - 1) * K = K" using q by linarith
    then show ?thesis using True ceil_div_exact[OF assms(1) True] by (simp add: Ldiv)
  next
    case False
    have "?N = (?N div K) * K + ?N mod K" by simp
    then have "?N - (?N div K) * K = ?N mod K" by linarith
    moreover have "?N mod K < K" using assms(1) by simp
    ultimately show ?thesis using False ceil_div_rem[OF assms(1) False] by (simp add: Ldiv)
  qed
qed

lemma get_page_total:
  assumes "0 < K"
  shows "\<exists>p. get_page (Paginator xs K) n = Inr p \<and> 1 \<le> number p
            \<and> number p \<le> int (last_page_number (length xs) K)
            \<and> page_paginator p = Paginator xs K"
proof (cases n)
  case Absent
  then show ?thesis
    using get_page_not_an_integer[OF assms, of n xs] last_page_number_ge1[of "length xs" K] by simp
next
  case NotAnInteger
  then show ?thesis
    using get_page_not_an_integer[OF assms, of n xs] last_page_number_ge1[of "length xs" K] by simp
next
  case (Number k)
  show ?thesis
  proof (cases "1 \<le> k \<and> k \<le> int (last_page_number (length xs) K)")
    case True
    then show ?thesis using get_page_in_range[OF assms, of k xs] Number by simp
  next
    case False
    then have "k < 1 \<or> int (last_page_number (length xs) K) < k" by linarith
    then show ?thesis
      using get_page_out_of_range[OF assms, of k xs] Number last_page_number_ge1[of "length xs" K]
      by simp
  qed
qed


text \<open>
  C6, as the code has it. For a page size of at least one, the pagination helper returns
  page 1 when the page parameter is absent or not an integer, the requested page when
  its number lies between 1 and the number of the last page, and the last page for any
  other integer, below 1 as well as beyond the last page. With at least one record the
  last page is page \<open>\<lceil>N/K\<rceil>\<close> and holds \<open>N mod K\<close> records, or \<open>K\<close> when \<open>K\<close> divides
  \<open>N\<close>; with no record the only page is page 1 and it is empty. Every returned page
  carries whether a previous and a next page exist and the total number of pages.
\<close>

theorem paginate_objects_pages:
  assumes "0 < K"
  shows "(let L = last_page_number (length xs) K; pg = Paginator xs K in
     (GET_page request = Absent \<or> GET_page request = NotAnInteger \<longrightarrow>
        paginate_objects request xs K =
          Inr \<lparr>page_object_list = take K xs, number = 1, page_paginator = pg\<rparr>)
     \<and> (\<forall>n. GET_page request = Number n \<and> 1 \<le> n \<and> n \<le> int L \<longrightarrow>
        paginate_objects request xs K =
          Inr \<lparr>page_object_list = take K (drop (nat (n - 1) * K) xs), number = n,
               page_paginator = pg\<rparr>)
     \<and> (\<forall>n. GET_page request = Number n \<and> (n < 1 \<or> int L < n) \<longrightarrow>
        paginate_objects request xs K =
          Inr \<lparr>page_object_list = take K (drop ((L - 1) * K) xs), number = int L,
               page_paginator = pg\<rparr>)
     \<and> (xs \<noteq> [] \<longrightarrow>
        L = nat \<lceil>real (length xs) / real K\<rceil>
        \<and> length (take K (drop ((L - 1) * K) xs)) =
            (if length xs mod K = 0 then K else length xs mod K))
     \<and> (xs = [] \<longrightarrow> L = 1 \<and> take K (drop ((L - 1) * K) xs) = [])
     \<and> (\<exists>p. paginate_objects request xs K = Inr p
            \<and> has_previous p = (1 < number p)
            \<and> has_next p = Inr (number p < int L)
            \<and> num_pages (page_paginator p) = Inr L))"
proof -
  let ?L = "last_page_number (length xs) K"
  have po: "paginate_objects request xs K = get_page (Paginator xs K) (GET_page request)"
    by (simp add: paginate_objects_def)
  have a: "GET_page request = Absent \<or> GET_page request = NotAnInteger \<longrightarrow>
        paginate_objects request xs K =
          Inr \<lparr>page_object_list = take K xs, number = 1, page_paginator = Paginator xs K\<rparr>"
    unfolding po using get_page_not_an_integer[OF assms, of _ xs] by auto
  have b: "\<forall>n. GET_page request = Number n \<and> 1 \<le> n \<and> n \<le> int ?L \<longrightarrow>
        paginate_objects request xs K =
          Inr \<lparr>page_object_list = take K (drop (nat (n - 1) * K) xs), number = n,
               page_paginator = Paginator xs K\<rparr>"
    unfolding po using get_page_in_range[OF assms, of _ xs] by auto
  have c: "\<forall>n. GET_page request = Number n \<and> (n < 1 \<or> int ?L < n) \<longrightarrow>
        paginate_objects request xs K =
          Inr \<lparr>page_object_list = take K (drop ((?L - 1) * K) xs), number = int ?L,
               page_paginator = Paginator xs K\<rparr>"
    unfolding po using get_page_out_of_range[OF assms, of _ xs] by auto
  have d: "xs \<noteq> [] \<longrightarrow>
        ?L = nat \<lceil>real (length xs) / real K\<rceil>
        \<and> length (take K (drop ((?L - 1) * K) xs)) =
            (if length xs mod K = 0 then K else length xs mod K)"
    using last_page_length[OF assms] by blast
  have e: "xs = [] \<longrightarrow> ?L = 1 \<and> take K (drop ((?L - 1) * K) xs) = []"
    by (simp add: last_page_number_def)
  obtain p where p: "get_page (Paginator xs K) (GET_page request) = Inr p"
      "page_paginator p = Paginator xs K"
    using get_page_total[OF assms, of xs "GET_page request"] by blast
  have f: "\<exists>p. paginate_objects request xs K = Inr p
            \<and> has_previous p = (1 < number p)
            \<and> has_next p = Inr (number p < int ?L)
            \<and> num_pages (page_paginator p) = Inr ?L"
    unfolding po using p num_pages_Paginator[OF assms, of xs]
    by (simp add: has_previous_def has_next_def)
  show ?thesis unfolding Let_def using a b c d e f by blast
qed

theorem paginate_objects_pages_witness:
  "(0::nat) < 2
   \<and> paginate_objects (sample_request GET AnonymousUser [] (Number 7)) [1, 2, 3, 4, 5 :: nat] 2 =
       Inr \<lparr>page_object_list = [5], number = 3, page_paginator = Paginator [1, 2, 3, 4, 5] 2\<rparr>
   \<and> paginate_objects (sample_request GET AnonymousUser [] (Number 2)) [1, 2, 3, 4, 5 :: nat] 2 =
       Inr \<lparr>page_object_list = [3, 4], number = 2, page_paginator = Paginator [1, 2, 3, 4, 5] 2\<rparr>
   \<and> paginate_objects (sample_request GET AnonymousUser [] Absent) [1, 2, 3, 4, 5 :: nat] 2 =
       Inr \<lparr>page_object_list = [1, 2], number = 1, page_paginator = Paginator [1, 2, 3, 4, 5] 2\<rparr>"
proof -
  have k: "(0::nat) < 2" by simp
  have L: "last_page_number (length [1, 2, 3, 4, 5 :: nat]) 2 = 3"
    by (simp add: last_page_number_def)
  show ?thesis
    using paginate_objects_pages[OF k, of "[1, 2, 3, 4, 5 :: nat]"
        "sample_request GET AnonymousUser [] (Number 7)"]
      paginate_objects_pages[OF k, of "[1, 2, 3, 4, 5 :: nat]"
        "sample_request GET AnonymousUser [] (Number 2)"]
      paginate_objects_pages[OF k, of "[1, 2, 3, 4, 5 :: nat]"
        "sample_request GET AnonymousUser [] Absent"]
    unfolding L Let_def by (simp add: sample_request_def)
qed

text \<open>
  The claim as stated fails twice. Page number 0 of five records in pages of two is
  answered with page 3, the last one, where clamping into the range 1 to 3 gives page 1.
  With no records, \<open>\<lceil>N/K\<rceil>\<close> is 0 and \<open>K\<close> divides \<open>N\<close>, yet the page returned holds
  no record instead of \<open>K\<close>.
\<close>

theorem paginate_objects_clamp_counterexample:
  "paginate_objects (sample_request GET AnonymousUser [] (Number 0)) [1, 2, 3, 4, 5 :: nat] 2 =
     Inr \<lparr>page_object_list = [5], number = 3, page_paginator = Paginator [1, 2, 3, 4, 5] 2\<rparr>
   \<and> paginate_objects (sample_request GET AnonymousUser [] (Number 0)) ([] :: nat list) 2 =
     Inr \<lparr>page_object_list = [], number = 1, page_paginator = Paginator [] 2\<rparr>
   \<and> nat \<lceil>real (length ([] :: nat list)) / real (2 :: nat)\<rceil> = 0
   \<and> length ([] :: nat list) mod 2 = 0"
  by (simp add: paginate_objects_def get_page_def validate_number_def paginator_page_def
      num_pages_def count_def Paginator_def sample_request_def)

section \<open>Lookups\<close>

lemma get_object_or_404_single:
  "filter P rows = [x] \<Longrightarrow> get_object_or_404 P rows = Inr x"
  by (simp add: get_object_or_404_def)

lemma get_object_or_404_none:
  "filter P rows = [] \<Longrightarrow> get_object_or_404 P rows = Inl Http404"
  by (simp add: get_object_or_404_def)

lemma get_object_or_404_found:
  assumes "get_object_or_404 P rows = Inr x"
  shows "x \<in> set rows \<and> P x"
proof -
  have "filter P rows = [x]"
    using assms by (auto simp: get_object_or_404_def split: list.splits)
  then have "x \<in> set (filter P rows)" by simp
  then show ?thesis by simp
qed

section \<open>The order of the home listing\<close>

lemma home_listing_is_a_filter:
  "PostListView_get_queryset now d =
     filter (\<lambda>p. pub_date p \<le> now \<and> is_published p \<and> category__is_published d p) (posts d)"
  by (simp add: PostListView_get_queryset_def PublishedPostManager_get_queryset_def
      PostManager_get_queryset_def)


text \<open>
  The view itself does not sort: in the sample blog, whose rows are stored oldest first,
  the post published at 10 precedes the post published at 20.
\<close>

lemma home_listing_keeps_stored_order:
  "PostListView_get_queryset 100 sample_db = [sample_post 1 1 10 True, sample_post 2 1 20 True]
   \<and> pub_date (sample_post 1 1 10 True) < pub_date (sample_post 2 1 20 True)"
  by (simp add: home_listing_is_a_filter sample_db_def sample_post_def
      category__is_published_def news_def drafts_def)




section \<open>The detail page\<close>

lemma detail_object_found:
  assumes "PostDetailView_get_object request pk d = Inr p"
  shows "p \<in> set (posts d) \<and> post_pk p = pk
         \<and> (is_published p \<or> is_user (post_author p) (req_user request))"
proof (cases "req_user request")
  case AnonymousUser
  then show ?thesis using assms by (simp add: PostDetailView_get_object_def)
next
  case (LoggedIn u)
  then have "get_object_or_404 (\<lambda>p. post_pk p = pk)
      (filter (\<lambda>p. is_published p \<or> post_author p = user_pk u) (posts d)) = Inr p"
    using assms by (simp add: PostDetailView_get_object_def PostManager_get_queryset_def)
  from get_object_or_404_found[OF this] show ?thesis using LoggedIn by simp
qed

lemma detail_object_for_author_or_published:
  assumes "req_user request = LoggedIn u" "filter (\<lambda>x. post_pk x = pk) (posts d) = [p]"
  shows "PostDetailView_get_object request pk d =
     (if is_published p \<or> post_author p = user_pk u then Inr p else Inl Http404)"
proof -
  have "filter (\<lambda>x. post_pk x = pk) (filter (\<lambda>x. is_published x \<or> post_author x = user_pk u) (posts d))
      = filter (\<lambda>x. is_published x \<or> post_author x = user_pk u) (filter (\<lambda>x. post_pk x = pk) (posts d))"
    by (simp add: conj_commute)
  also have "\<dots> = (if is_published p \<or> post_author p = user_pk u then [p] else [])"
    using assms(2) by simp
  finally show ?thesis using assms(1)
    by (simp add: PostDetailView_get_object_def PostManager_get_queryset_def
        get_object_or_404_def)
qed

text \<open>
  C2. The detail page is meant for visible posts and for the author. The query tests
  the published flag alone: for a reader who is not the author it returns a post
  scheduled for time 500 at time 100, and a post of a hidden category, neither of which
  the published manager yields.
\<close>

theorem detail_shows_scheduled_and_hidden_category_posts:
  "sample_post 3 1 500 True \<notin> set (PublishedPostManager_get_queryset 100 sample_db)
   \<and> sample_post 4 2 10 True \<notin> set (PublishedPostManager_get_queryset 100 sample_db)
   \<and> post_author (sample_post 3 1 500 True) \<noteq> user_pk bob
   \<and> post_author (sample_post 4 2 10 True) \<noteq> user_pk bob
   \<and> PostDetailView_get_object (sample_request GET (LoggedIn bob) [] Absent) 3 sample_db =
       Inr (sample_post 3 1 500 True)
   \<and> PostDetailView_get_object (sample_request GET (LoggedIn bob) [] Absent) 4 sample_db =
       Inr (sample_post 4 2 10 True)
   \<and> fst (serve sample_forms 100 (sample_request GET (LoggedIn bob) [] Absent)
            (Call_PostDetailView 3) sample_db) =
       Render ''blog/detail.html'' 200 (DetailContext (sample_post 3 1 500 True) [])"
  by (simp add: PublishedPostManager_get_queryset_def PostManager_get_queryset_def
      PostDetailView_get_object_def PostDetailView_def get_object_or_404_def serve_def
      csrf_rejects_def sample_db_def sample_post_def sample_request_def bob_def
      category__is_published_def news_def drafts_def first_comment_def)

section \<open>The ownership guard\<close>

lemma login_required_LoggedIn:
  "req_user request = LoggedIn v \<Longrightarrow> login_required request d view = view v"
  by (simp add: login_required_def)

lemma post_views_redirect_non_author:
  assumes "req_user request = LoggedIn v"
    and "filter (\<lambda>x. post_pk x = pk) (posts d) = [p]"
    and "post_author p \<noteq> user_pk v"
  shows "PostUpdateView fs request pk d = Inr (Redirect (ToPostDetail pk), d)"
    and "PostDeleteView request pk d = Inr (Redirect (ToPostDetail pk), d)"
proof -
  have "SingleObjectMixin_get_object pk d = Inr p"
    using assms(2)
    by (simp add: SingleObjectMixin_get_object_def PostManager_get_queryset_def
        get_object_or_404_single)
  then have "DispatchMixin_dispatch request pk d super = Inr (Redirect (ToPostDetail pk), d)"
    for super
    using assms(1,3) by (simp add: DispatchMixin_dispatch_def)
  then show "PostUpdateView fs request pk d = Inr (Redirect (ToPostDetail pk), d)"
    and "PostDeleteView request pk d = Inr (Redirect (ToPostDetail pk), d)"
    using assms(1) by (simp_all add: PostUpdateView_def PostDeleteView_def login_required_LoggedIn)
qed

lemma comment_views_redirect_non_author:
  assumes "req_user request = LoggedIn v"
    and "filter (\<lambda>x. comment_pk x = cid \<and> comment_post x = pid) (comments d) = [c]"
    and "comment_author c \<noteq> user_pk v"
  shows "edit_comment fs request cid pid d = Inr (Redirect (ToPostDetail pid), d)"
    and "delete_comment request cid pid d = Inr (Redirect (ToPostDetail pid), d)"
  using assms
  by (simp_all add: edit_comment_def delete_comment_def login_required_LoggedIn
      get_object_or_404_single)

lemma edit_profile_redirects_other_user:
  assumes "filter (\<lambda>x. username x = name) (users d) = [u]"
    and "request_username (req_user request) \<noteq> name"
  shows "edit_profile fs request name d = Inr (Redirect ToLogin, d)"
proof -
  have "u \<in> set (filter (\<lambda>x. username x = name) (users d))" using assms(1) by simp
  then have "username u = name" by simp
  then show ?thesis using assms by (simp add: edit_profile_def get_object_or_404_single)
qed

text \<open>
  C3, as the code has it. An edit or delete request by a logged-in user who is not the
  owner of the record changes nothing. For a post it is answered with a redirect to the
  detail page of the post, for a comment with a redirect to the detail page of the post
  the comment belongs to, and for a user profile with a redirect to the login page.
\<close>

theorem non_owner_edit_is_redirected:
  assumes "req_user request = LoggedIn v"
  shows "(\<forall>p. filter (\<lambda>x. post_pk x = pk) (posts d) = [p] \<and> post_author p \<noteq> user_pk v \<longrightarrow>
            PostUpdateView fs request pk d = Inr (Redirect (ToPostDetail pk), d)
            \<and> PostDeleteView request pk d = Inr (Redirect (ToPostDetail pk), d))
       \<and> (\<forall>c. filter (\<lambda>x. comment_pk x = cid \<and> comment_post x = pid) (comments d) = [c]
              \<and> comment_author c \<noteq> user_pk v \<longrightarrow>
            edit_comment fs request cid pid d = Inr (Redirect (ToPostDetail pid), d)
            \<and> delete_comment request cid pid d = Inr (Redirect (ToPostDetail pid), d))
       \<and> (\<forall>u. filter (\<lambda>x. username x = name) (users d) = [u] \<and> username v \<noteq> name \<longrightarrow>
            edit_profile fs request name d = Inr (Redirect ToLogin, d))"
  using post_views_redirect_non_author(1)[OF assms, where pk = pk and d = d and fs = fs]
    post_views_redirect_non_author(2)[OF assms, where pk = pk and d = d]
    comment_views_redirect_non_author(1)[OF assms, where cid = cid and pid = pid and d = d
      and fs = fs]
    comment_views_redirect_non_author(2)[OF assms, where cid = cid and pid = pid and d = d]
    edit_profile_redirects_other_user[where name = name and d = d and request = request and fs = fs]
    assms
  by auto

theorem non_owner_edit_is_redirected_witness:
  "PostUpdateView sample_forms (sample_request POST (LoggedIn bob) [(''title'', ''mine'')] Absent)
       1 sample_db = Inr (Redirect (ToPostDetail 1), sample_db)
   \<and> PostDeleteView (sample_request POST (LoggedIn bob) [(''title'', ''mine'')] Absent)
       1 sample_db = Inr (Redirect (ToPostDetail 1), sample_db)
   \<and> edit_comment sample_forms
       (sample_request POST (LoggedIn bob) [(''title'', ''mine'')] Absent) 1 1 sample_db =
       Inr (Redirect (ToPostDetail 1), sample_db)
   \<and> delete_comment (sample_request POST (LoggedIn bob) [(''title'', ''mine'')] Absent)
       1 1 sample_db = Inr (Redirect (ToPostDetail 1), sample_db)
   \<and> edit_profile sample_forms
       (sample_request POST (LoggedIn bob) [(''title'', ''mine'')] Absent) ''alice'' sample_db =
       Inr (Redirect ToLogin, sample_db)"
proof -
  let ?r = "sample_request POST (LoggedIn bob) [(''title'', ''mine'')] Absent"
  have u: "req_user ?r = LoggedIn bob" by (simp add: sample_request_def)
  show ?thesis
    using non_owner_edit_is_redirected[OF u, where pk = 1 and d = sample_db and cid = 1
        and pid = 1 and fs = sample_forms and name = "''alice''"]
    by (simp add: sample_db_def sample_post_def first_comment_def alice_def bob_def)
qed

text \<open>
  The claim as stated fails for the profile: a profile edit by another user is redirected
  to the login page, not to the page of the profile.
\<close>

theorem profile_edit_redirect_counterexample:
  "edit_profile sample_forms
     (sample_request POST (LoggedIn bob) [(''first_name'', ''Eve'')] Absent) ''alice'' sample_db =
     Inr (Redirect ToLogin, sample_db)
   \<and> edit_profile sample_forms
     (sample_request POST (LoggedIn bob) [(''first_name'', ''Eve'')] Absent) ''alice'' sample_db \<noteq>
     Inr (Redirect (ToProfile ''alice''), sample_db)"
  by (simp add: edit_profile_def get_object_or_404_def sample_db_def alice_def bob_def
      sample_request_def)

section \<open>Deleting a comment\<close>

text \<open>
  C10. For a request of the comment's author to the delete route, a method other than
  POST leaves the database unchanged and renders the confirmation page, and POST deletes
  the comment; whenever the view changes the database, the method was POST.
\<close>

theorem delete_comment_only_on_post:
  "(\<forall>v c. req_user request = LoggedIn v
        \<and> filter (\<lambda>x. comment_pk x = cid \<and> comment_post x = pid) (comments d) = [c]
        \<and> comment_author c = user_pk v \<longrightarrow>
        delete_comment request cid pid d =
          (if req_method request = POST
           then Inr (Redirect (ToPostDetail pid), delete_comment_row c d)
           else Inr (Render ''blog/comment.html'' 200 (CommentContext c), d)))
   \<and> (\<forall>r d'. delete_comment request cid pid d = Inr (r, d') \<and> d' \<noteq> d \<longrightarrow>
        req_method request = POST)"
proof -
  have a: "delete_comment request cid pid d =
          (if req_method request = POST
           then Inr (Redirect (ToPostDetail pid), delete_comment_row c d)
           else Inr (Render ''blog/comment.html'' 200 (CommentContext c), d))"
    if "req_user request = LoggedIn v"
      "filter (\<lambda>x. comment_pk x = cid \<and> comment_post x = pid) (comments d) = [c]"
      "comment_author c = user_pk v" for v c
    using that
    by (simp add: delete_comment_def login_required_LoggedIn get_object_or_404_single)
  have b: "req_method request = POST"
    if "delete_comment request cid pid d = Inr (r, d')" "d' \<noteq> d" for r d'
    using that
    by (auto simp: delete_comment_def login_required_def
        split: requester.splits sum.splits if_splits)
  show ?thesis using a b by blast
qed

theorem delete_comment_only_on_post_witness:
  "delete_comment (sample_request GET (LoggedIn alice) [] Absent) 1 1 sample_db =
     Inr (Render ''blog/comment.html'' 200 (CommentContext first_comment), sample_db)
   \<and> delete_comment (sample_request POST (LoggedIn alice) [] Absent) 1 1 sample_db =
     Inr (Redirect (ToPostDetail 1), sample_db\<lparr>comments := []\<rparr>)"
  using delete_comment_only_on_post[where request = "sample_request GET (LoggedIn alice) [] Absent"
      and cid = 1 and pid = 1 and d = sample_db]
    delete_comment_only_on_post[where request = "sample_request POST (LoggedIn alice) [] Absent"
      and cid = 1 and pid = 1 and d = sample_db]
  by (simp add: sample_request_def sample_db_def first_comment_def alice_def
      delete_comment_row_def)

section \<open>Creating a comment\<close>

lemma add_comment_on_existing_post:
  assumes "req_user request = LoggedIn v"
    and "filter (\<lambda>x. post_pk x = pk) (posts d) = [p]"
  shows "add_comment fs now request pk d =
     (case Option.bind (POST_or_None request) (CommentForm fs) of
        Some text \<Rightarrow>
          Inr (Redirect (ToPostDetail pk),
               create_comment \<lparr>comment_pk = 0, comment_author = user_pk v,
                  comment_post = post_pk p, comment_text = text, created_at = now\<rparr> d)
      | None \<Rightarrow> Inr (Redirect (ToPostDetail pk), d))"
  using assms
  by (simp add: add_comment_def login_required_LoggedIn PostManager_get_queryset_def
      get_object_or_404_single split: option.splits)

lemma add_comment_on_missing_post:
  assumes "req_user request = LoggedIn v"
    and "filter (\<lambda>x. post_pk x = pk) (posts d) = []"
  shows "add_comment fs now request pk d = Inl Http404"
  using assms
  by (simp add: add_comment_def login_required_LoggedIn PostManager_get_queryset_def
      get_object_or_404_none)

lemma bound_form_cleaned:
  "POST_data request \<noteq> [] \<Longrightarrow>
   Option.bind (POST_or_None request) f = f (POST_data request)"
  by (simp add: POST_or_None_def)

text \<open>
  C4, as the code has it. The comment view looks the post up by its primary key alone.
  For a logged-in user a valid comment form persists one comment on any stored post,
  visible or not; a request that targets a post that does not exist persists nothing and
  raises the not-found error.
\<close>

theorem add_comment_checks_existence_only:
  assumes "req_user request = LoggedIn v"
  shows "(\<forall>p text. filter (\<lambda>x. post_pk x = pk) (posts d) = [p]
            \<and> POST_data request \<noteq> [] \<and> CommentForm fs (POST_data request) = Some text \<longrightarrow>
          add_comment fs now request pk d =
            Inr (Redirect (ToPostDetail pk),
                 d\<lparr>comments := comments d @
                      [\<lparr>comment_pk = Suc (comment_sequence d),
                        comment_author = user_pk v, comment_post = post_pk p,
                        comment_text = text, created_at = now\<rparr>],
                   comment_sequence := Suc (comment_sequence d)\<rparr>))
       \<and> (filter (\<lambda>x. post_pk x = pk) (posts d) = [] \<longrightarrow>
          add_comment fs now request pk d = Inl Http404)"
  using add_comment_on_existing_post[OF assms, where pk = pk and d = d and fs = fs and now = now]
    add_comment_on_missing_post[OF assms, where pk = pk and d = d and fs = fs and now = now]
  by (auto simp: bound_form_cleaned create_comment_def)

theorem add_comment_checks_existence_only_witness:
  "add_comment sample_forms 100
       (sample_request POST (LoggedIn bob) [(''text'', ''hi'')] Absent) 1 sample_db =
     Inr (Redirect (ToPostDetail 1),
          sample_db\<lparr>comments := [first_comment,
             \<lparr>comment_pk = 2, comment_author = 2, comment_post = 1, comment_text = ''hi'',
              created_at = 100\<rparr>], comment_sequence := 2\<rparr>)
   \<and> add_comment sample_forms 100
       (sample_request POST (LoggedIn bob) [(''text'', ''hi'')] Absent) 99 sample_db =
     Inl Http404"
proof -
  let ?r = "sample_request POST (LoggedIn bob) [(''text'', ''hi'')] Absent"
  have u: "req_user ?r = LoggedIn bob" by (simp add: sample_request_def)
  show ?thesis
    using add_comment_checks_existence_only[OF u, where pk = 1 and d = sample_db
        and fs = sample_forms and now = 100]
      add_comment_checks_existence_only[OF u, where pk = 99 and d = sample_db
        and fs = sample_forms and now = 100]
    by (simp add: sample_db_def sample_post_def sample_request_def sample_forms_def
        required_field_def first_comment_def bob_def)
qed

text \<open>
  The claim as stated fails: a withdrawn post, which the published manager does not
  yield, receives a comment from a reader who is not its author.
\<close>

theorem comment_on_hidden_post_counterexample:
  "sample_post 5 1 10 False \<notin> set (PublishedPostManager_get_queryset 100 sample_db)
   \<and> add_comment sample_forms 100
       (sample_request POST (LoggedIn bob) [(''text'', ''hi'')] Absent) 5 sample_db =
     Inr (Redirect (ToPostDetail 5),
          sample_db\<lparr>comments := [first_comment,
             \<lparr>comment_pk = 2, comment_author = 2, comment_post = 5, comment_text = ''hi'',
              created_at = 100\<rparr>], comment_sequence := 2\<rparr>)"
  by (simp add: PublishedPostManager_get_queryset_def PostManager_get_queryset_def
      add_comment_def login_required_def get_object_or_404_def POST_or_None_def
      create_comment_def sample_db_def sample_post_def sample_request_def
      sample_forms_def required_field_def first_comment_def bob_def
      category__is_published_def news_def drafts_def)

section \<open>Invalid forms\<close>

lemma PostCreateView_invalid:
  assumes "req_user request = LoggedIn v" "req_method request = POST"
    and "PostForm fs (POST_data request) None = None"
  shows "PostCreateView fs request d =
     Inr (Render ''blog/create.html'' 200 (PostFormContext (Bound (POST_data request))), d)"
  using assms by (simp add: PostCreateView_def login_required_LoggedIn)

lemma edit_comment_invalid:
  assumes "req_user request = LoggedIn v"
    and "filter (\<lambda>x. comment_pk x = cid \<and> comment_post x = pid) (comments d) = [c]"
    and "comment_author c = user_pk v"
    and "POST_data request \<noteq> []" "CommentForm fs (POST_data request) = None"
  shows "edit_comment fs request cid pid d =
     Inr (Render ''blog/comment.html'' 200
            (CommentFormContext (Bound (POST_data request)) c), d)"
  using assms
  by (simp add: edit_comment_def login_required_LoggedIn get_object_or_404_single
      bound_form_cleaned) (simp add: form_of_def POST_or_None_def)

lemma edit_profile_invalid:
  assumes "req_user request = LoggedIn v"
    and "filter (\<lambda>x. username x = name) (users d) = [u]"
    and "username v = name"
    and "POST_data request \<noteq> []" "ProfileForm fs (POST_data request) u = None"
  shows "edit_profile fs request name d =
     Inr (Render ''blog/user.html'' 200 (UserFormContext (Bound (POST_data request))), d)"
proof -
  have "u \<in> set (filter (\<lambda>x. username x = name) (users d))" using assms(2) by simp
  then have "username u = name" by simp
  then show ?thesis using assms
    by (simp add: edit_profile_def get_object_or_404_single bound_form_cleaned)
      (simp add: form_of_def POST_or_None_def)
qed

lemma add_comment_invalid:
  assumes "req_user request = LoggedIn v"
    and "filter (\<lambda>x. post_pk x = pk) (posts d) = [p]"
    and "POST_data request \<noteq> []" "CommentForm fs (POST_data request) = None"
  shows "add_comment fs now request pk d = Inr (Redirect (ToPostDetail pk), d)"
  using add_comment_on_existing_post[OF assms(1,2), where fs = fs and now = now] assms(3,4)
  by (simp add: bound_form_cleaned)

text \<open>
  C5, as the code has it. A submitted form that fails validation persists nothing. Post
  creation, comment edit and profile edit render the same form again, bound to the
  submitted data; comment creation answers with a redirect to the detail page of the
  post instead.
\<close>

theorem invalid_form_persists_nothing:
  assumes "req_user request = LoggedIn v" and "POST_data request \<noteq> []"
  shows "(req_method request = POST \<and> PostForm fs (POST_data request) None = None \<longrightarrow>
            PostCreateView fs request d =
              Inr (Render ''blog/create.html'' 200
                     (PostFormContext (Bound (POST_data request))), d))
       \<and> (\<forall>c. filter (\<lambda>x. comment_pk x = cid \<and> comment_post x = pid) (comments d) = [c]
              \<and> comment_author c = user_pk v
              \<and> CommentForm fs (POST_data request) = None \<longrightarrow>
            edit_comment fs request cid pid d =
              Inr (Render ''blog/comment.html'' 200
                     (CommentFormContext (Bound (POST_data request)) c), d))
       \<and> (\<forall>u. filter (\<lambda>x. username x = name) (users d) = [u] \<and> username v = name
              \<and> ProfileForm fs (POST_data request) u = None \<longrightarrow>
            edit_profile fs request name d =
              Inr (Render ''blog/user.html'' 200
                     (UserFormContext (Bound (POST_data request))), d))
       \<and> (\<forall>p. filter (\<lambda>x. post_pk x = pk) (posts d) = [p]
              \<and> CommentForm fs (POST_data request) = None \<longrightarrow>
            add_comment fs now request pk d = Inr (Redirect (ToPostDetail pk), d))"
  using PostCreateView_invalid[OF assms(1), where fs = fs and d = d]
    edit_comment_invalid[OF assms(1), where cid = cid and pid = pid and d = d and fs = fs]
    edit_profile_invalid[OF assms(1), where name = name and d = d and fs = fs]
    add_comment_invalid[OF assms(1), where pk = pk and d = d and fs = fs and now = now]
    assms(2)
  by blast

theorem invalid_form_persists_nothing_witness:
  "PostCreateView sample_forms
       (sample_request POST (LoggedIn alice) [(''text'', '''')] Absent) sample_db =
     Inr (Render ''blog/create.html'' 200 (PostFormContext (Bound [(''text'', '''')])), sample_db)
   \<and> edit_comment sample_forms
       (sample_request POST (LoggedIn alice) [(''text'', '''')] Absent) 1 1 sample_db =
     Inr (Render ''blog/comment.html'' 200
            (CommentFormContext (Bound [(''text'', '''')]) first_comment), sample_db)
   \<and> edit_profile sample_forms
       (sample_request POST (LoggedIn alice) [(''text'', '''')] Absent) ''alice'' sample_db =
     Inr (Render ''blog/user.html'' 200 (UserFormContext (Bound [(''text'', '''')])), sample_db)
   \<and> add_comment sample_forms 100
       (sample_request POST (LoggedIn alice) [(''text'', '''')] Absent) 1 sample_db =
     Inr (Redirect (ToPostDetail 1), sample_db)"
proof -
  let ?r = "sample_request POST (LoggedIn alice) [(''text'', '''')] Absent"
  have u: "req_user ?r = LoggedIn alice" and n: "POST_data ?r \<noteq> []"
    by (simp_all add: sample_request_def)
  show ?thesis
    using invalid_form_persists_nothing[OF u n, where fs = sample_forms and d = sample_db
        and cid = 1 and pid = 1 and name = "''alice''" and pk = 1 and now = 100]
    by (simp add: sample_db_def sample_post_def sample_request_def sample_forms_def
        required_field_def first_comment_def alice_def bob_def)
qed

text \<open>
  The claim as stated fails for comment creation: an empty comment text does not
  validate, and the answer is a redirect, not the form.
\<close>

theorem invalid_comment_redirect_counterexample:
  "CommentForm sample_forms [(''text'', '''')] = None
   \<and> add_comment sample_forms 100
       (sample_request POST (LoggedIn bob) [(''text'', '''')] Absent) 1 sample_db =
     Inr (Redirect (ToPostDetail 1), sample_db)"
  by (simp add: add_comment_def login_required_def get_object_or_404_def POST_or_None_def
      PostManager_get_queryset_def sample_db_def sample_post_def sample_request_def
      sample_forms_def required_field_def)

section \<open>The category page\<close>

lemma category_posts_not_found:
  assumes "\<forall>c\<in>set (categories d). slug c = s \<longrightarrow> \<not> category_is_published c"
  shows "category_posts now request s d = Inl Http404"
proof -
  have "filter (\<lambda>c. category_is_published c \<and> slug c = s) (categories d) = []"
    using assms by (auto simp: filter_empty_conv)
  then show ?thesis by (simp add: category_posts_def get_object_or_404_none)
qed

lemma category_posts_served:
  assumes "category_posts now request s d = Inr (r, d')"
  shows "\<exists>c pg. r = Render ''blog/category.html'' 200 (CategoryContext c pg)
           \<and> c \<in> set (categories d) \<and> category_is_published c \<and> slug c = s"
proof (cases "get_object_or_404 (\<lambda>c. category_is_published c \<and> slug c = s) (categories d)")
  case (Inl e)
  then show ?thesis using assms by (simp add: category_posts_def)
next
  case (Inr c)
  from get_object_or_404_found[OF Inr] have "c \<in> set (categories d)"
    "category_is_published c" "slug c = s" by simp_all
  then show ?thesis using assms Inr
    by (auto simp: category_posts_def Let_def split: sum.splits)
qed

lemma serve_not_found:
  assumes "\<not> csrf_rejects request" "call_view fs now request call d = Inl Http404"
  shows "serve fs now request call d = (Render ''core/404.html'' 404 NoContext, d)"
  using assms by (simp add: serve_def page_not_found_def)

text \<open>
  C9. When every category that the slug names has its published flag off, the category
  view raises the not-found error, which is answered with the 404 page and not with an
  empty listing; and whenever the view renders the category page, it is the page of a
  stored category with that slug whose published flag is set.
\<close>

theorem unpublished_category_is_not_found:
  "((\<forall>c\<in>set (categories d). slug c = s \<longrightarrow> \<not> category_is_published c) \<longrightarrow>
        category_posts now request s d = Inl Http404
        \<and> (\<not> csrf_rejects request \<longrightarrow>
             serve fs now request (Call_category_posts s) d =
               (Render ''core/404.html'' 404 NoContext, d)))
   \<and> (\<forall>r d'. category_posts now request s d = Inr (r, d') \<longrightarrow>
        (\<exists>c pg. r = Render ''blog/category.html'' 200 (CategoryContext c pg)
           \<and> c \<in> set (categories d) \<and> category_is_published c \<and> slug c = s))"
proof -
  have a: "category_posts now request s d = Inl Http404
        \<and> (\<not> csrf_rejects request \<longrightarrow>
             serve fs now request (Call_category_posts s) d =
               (Render ''core/404.html'' 404 NoContext, d))"
    if h: "\<forall>c\<in>set (categories d). slug c = s \<longrightarrow> \<not> category_is_published c"
  proof -
    have nf: "category_posts now request s d = Inl Http404"
      by (rule category_posts_not_found[OF h])
    then have "call_view fs now request (Call_category_posts s) d = Inl Http404" by simp
    then show ?thesis using nf serve_not_found by blast
  qed
  show ?thesis using a category_posts_served[of now request s d] by blast
qed

theorem unpublished_category_is_not_found_witness:
  "drafts \<in> set (categories sample_db) \<and> \<not> category_is_published drafts
   \<and> category_posts 100 (sample_request GET AnonymousUser [] Absent) ''drafts'' sample_db =
       Inl Http404
   \<and> serve sample_forms 100 (sample_request GET AnonymousUser [] Absent)
       (Call_category_posts ''drafts'') sample_db =
       (Render ''core/404.html'' 404 NoContext, sample_db)"
  using unpublished_category_is_not_found[where d = sample_db and s = "''drafts''"
      and now = 100 and request = "sample_request GET AnonymousUser [] Absent"
      and fs = sample_forms]
  by (simp add: sample_db_def news_def drafts_def csrf_rejects_def sample_request_def)

section \<open>The error pages\<close>

lemma filter_none_of_filter:
  "filter P rows = [] \<Longrightarrow> filter P (filter Q rows) = []"
  by (auto simp: filter_empty_conv)

lemma SingleObjectMixin_get_object_missing:
  "filter (\<lambda>p. post_pk p = pk) (posts d) = [] \<Longrightarrow>
   SingleObjectMixin_get_object pk d = Inl Http404"
  by (simp add: SingleObjectMixin_get_object_def PostManager_get_queryset_def
      get_object_or_404_none)

lemma call_view_target_missing:
  assumes "target_missing call d"
    and "(\<exists>v. req_user request = LoggedIn v)
         \<or> (\<exists>s. call = Call_category_posts s \<or> call = Call_info_profile s
                \<or> call = Call_edit_profile s)"
    and "\<forall>pk. call = Call_PostDetailView pk \<longrightarrow> req_method request \<in> {GET, HEAD}"
  shows "call_view fs now request call d = Inl Http404"
proof (cases call)
  case (Call_category_posts s)
  then have "filter (\<lambda>c. category_is_published c \<and> slug c = s) (categories d) = []"
    using assms(1) by (auto simp: filter_empty_conv)
  then show ?thesis using Call_category_posts
    by (simp add: category_posts_def get_object_or_404_none)
next
  case (Call_info_profile name)
  then show ?thesis using assms(1) by (simp add: info_profile_def get_object_or_404_none)
next
  case (Call_edit_profile name)
  then show ?thesis using assms(1) by (simp add: edit_profile_def get_object_or_404_none)
next
  case Call_PostCreateView
  then show ?thesis using assms(1) by simp
next
  case (Call_PostDetailView pk)
  then obtain v where v: "req_user request = LoggedIn v" using assms(2) by auto
  have "filter (\<lambda>p. post_pk p = pk)
          (filter (\<lambda>p. is_published p \<or> post_author p = user_pk v) (posts d)) = []"
    using assms(1) Call_PostDetailView by (intro filter_none_of_filter) simp
  then have "PostDetailView_get_object request pk d = Inl Http404"
    using v by (simp add: PostDetailView_get_object_def PostManager_get_queryset_def
        get_object_or_404_none)
  then show ?thesis using assms(3) Call_PostDetailView by (auto simp: PostDetailView_def)
next
  case (Call_PostUpdateView pk)
  then obtain v where v: "req_user request = LoggedIn v" using assms(2) by auto
  show ?thesis using assms(1) v Call_PostUpdateView
    by (simp add: PostUpdateView_def login_required_LoggedIn DispatchMixin_dispatch_def
        SingleObjectMixin_get_object_missing)
next
  case (Call_PostDeleteView pk)
  then obtain v where v: "req_user request = LoggedIn v" using assms(2) by auto
  show ?thesis using assms(1) v Call_PostDeleteView
    by (simp add: PostDeleteView_def login_required_LoggedIn DispatchMixin_dispatch_def
        SingleObjectMixin_get_object_missing)
next
  case (Call_add_comment pk)
  then obtain v where v: "req_user request = LoggedIn v" using assms(2) by auto
  show ?thesis using assms(1) v Call_add_comment
    by (simp add: add_comment_on_missing_post)
next
  case (Call_edit_comment c p)
  then obtain v where v: "req_user request = LoggedIn v" using assms(2) by auto
  show ?thesis using assms(1) v Call_edit_comment
    by (simp add: edit_comment_def login_required_LoggedIn get_object_or_404_none)
next
  case (Call_delete_comment c p)
  then obtain v where v: "req_user request = LoggedIn v" using assms(2) by auto
  show ?thesis using assms(1) v Call_delete_comment
    by (simp add: delete_comment_def login_required_LoggedIn get_object_or_404_none)
qed

lemma call_view_anonymous_gated:
  assumes "req_user request = AnonymousUser" "login_gated call"
  shows "call_view fs now request call d = Inr (Redirect ToLoginNext, d)"
  using assms
  by (cases call)
    (simp_all add: login_required_def PostCreateView_def PostUpdateView_def
      PostDeleteView_def add_comment_def edit_comment_def delete_comment_def)

lemma PostDetailView_other_method:
  assumes "req_method request \<notin> {GET, HEAD}"
  shows "PostDetailView request pk d =
     Inr (if req_method request = OPTIONS then OptionsResponse else MethodNotAllowed, d)"
  using assms by (cases "req_method request") (simp_all add: PostDetailView_def)

text \<open>
  The detail page has no login gate, and its query raises for the anonymous user: an
  anonymous GET or HEAD ends in a server error whether or not the post exists.
\<close>

lemma anonymous_detail_is_server_error:
  assumes "req_user request = AnonymousUser" "req_method request \<in> {GET, HEAD}"
  shows "serve fs now request (Call_PostDetailView pk) d = (ServerError, d)"
  using assms
  by (auto simp: serve_def csrf_rejects_def PostDetailView_def PostDetailView_get_object_def)

text \<open>
  C8, as the code has it. A request whose view raises the not-found error is answered
  with status 404 and the rendered page \<open>core/404.html\<close>. Every view raises it when the
  record it targets does not exist, for a request that comes from a logged-in user (or
  goes to the category, profile or profile edit view) and, for the detail page, is a GET
  or HEAD. An anonymous request to a view behind the login gate is redirected to the
  login page before any lookup, and a request to the detail page with another method is
  answered by the method dispatch before any lookup. A request that fails the CSRF check
  is answered with status 403 and the rendered page \<open>core/403csrf.html\<close>.
\<close>

theorem missing_record_and_csrf_pages:
  "(\<not> csrf_rejects request \<and> call_view fs now request call d = Inl Http404 \<longrightarrow>
       serve fs now request call d = (Render ''core/404.html'' 404 NoContext, d))
   \<and> (target_missing call d
       \<and> ((\<exists>v. req_user request = LoggedIn v)
           \<or> (\<exists>s. call = Call_category_posts s \<or> call = Call_info_profile s
                  \<or> call = Call_edit_profile s))
       \<and> (\<forall>pk. call = Call_PostDetailView pk \<longrightarrow> req_method request \<in> {GET, HEAD}) \<longrightarrow>
       call_view fs now request call d = Inl Http404)
   \<and> (\<not> csrf_rejects request \<and> target_missing call d
       \<and> ((\<exists>v. req_user request = LoggedIn v)
           \<or> (\<exists>s. call = Call_category_posts s \<or> call = Call_info_profile s
                  \<or> call = Call_edit_profile s))
       \<and> (\<forall>pk. call = Call_PostDetailView pk \<longrightarrow> req_method request \<in> {GET, HEAD}) \<longrightarrow>
       serve fs now request call d = (Render ''core/404.html'' 404 NoContext, d))
   \<and> (req_user request = AnonymousUser \<and> login_gated call \<longrightarrow>
       call_view fs now request call d = Inr (Redirect ToLoginNext, d)
       \<and> (\<not> csrf_rejects request \<longrightarrow>
            serve fs now request call d = (Redirect ToLoginNext, d)))
   \<and> (\<forall>pk. call = Call_PostDetailView pk \<and> req_method request \<notin> {GET, HEAD} \<longrightarrow>
       call_view fs now request call d =
         Inr (if req_method request = OPTIONS then OptionsResponse else MethodNotAllowed, d))
   \<and> (csrf_rejects request \<longrightarrow>
       serve fs now request call d = (Render ''core/403csrf.html'' 403 NoContext, d))
   \<and> page_not_found request exception = Render ''core/404.html'' 404 NoContext
   \<and> status (page_not_found request exception) = 404
   \<and> csrf_failure request reason = Render ''core/403csrf.html'' 403 NoContext
   \<and> status (csrf_failure request reason) = 403"
proof -
  have a: "serve fs now request call d = (Render ''core/404.html'' 404 NoContext, d)"
    if "\<not> csrf_rejects request" "call_view fs now request call d = Inl Http404"
    using that by (rule serve_not_found)
  have b0: "call_view fs now request call d = Inl Http404"
    if "target_missing call d"
      "(\<exists>v. req_user request = LoggedIn v)
           \<or> (\<exists>s. call = Call_category_posts s \<or> call = Call_info_profile s
                  \<or> call = Call_edit_profile s)"
      "\<forall>pk. call = Call_PostDetailView pk \<longrightarrow> req_method request \<in> {GET, HEAD}"
    using call_view_target_missing[OF that] .
  have b: "serve fs now request call d = (Render ''core/404.html'' 404 NoContext, d)"
    if "\<not> csrf_rejects request" "target_missing call d"
      "(\<exists>v. req_user request = LoggedIn v)
           \<or> (\<exists>s. call = Call_category_posts s \<or> call = Call_info_profile s
                  \<or> call = Call_edit_profile s)"
      "\<forall>pk. call = Call_PostDetailView pk \<longrightarrow> req_method request \<in> {GET, HEAD}"
    using serve_not_found[OF that(1) call_view_target_missing[OF that(2,3,4)]] .
  have g: "call_view fs now request call d = Inr (Redirect ToLoginNext, d)
       \<and> (\<not> csrf_rejects request \<longrightarrow>
            serve fs now request call d = (Redirect ToLoginNext, d))"
    if "req_user request = AnonymousUser" "login_gated call"
    using call_view_anonymous_gated[OF that, of fs now d] by (simp add: serve_def)
  have m: "call_view fs now request call d =
         Inr (if req_method request = OPTIONS then OptionsResponse else MethodNotAllowed, d)"
    if "call = Call_PostDetailView pk" "req_method request \<notin> {GET, HEAD}" for pk
    using that PostDetailView_other_method[of request pk d] by simp
  have c: "serve fs now request call d = (Render ''core/403csrf.html'' 403 NoContext, d)"
    if "csrf_rejects request"
    using that by (simp add: serve_def csrf_failure_def)
  have e: "page_not_found request exception = Render ''core/404.html'' 404 NoContext"
    "status (page_not_found request exception) = 404"
    "csrf_failure request reason = Render ''core/403csrf.html'' 403 NoContext"
    "status (csrf_failure request reason) = 403"
    by (simp_all add: page_not_found_def csrf_failure_def)
  show ?thesis
    apply (intro conjI impI allI)
    using a b0 b g m c e by blast+
qed

theorem missing_record_and_csrf_pages_witness:
  "serve sample_forms 100 (sample_request POST (LoggedIn bob) [(''text'', ''hi'')] Absent)
       (Call_add_comment 99) sample_db = (Render ''core/404.html'' 404 NoContext, sample_db)
   \<and> serve sample_forms 100 (sample_request GET (LoggedIn bob) [] Absent)
       (Call_PostDetailView 99) sample_db = (Render ''core/404.html'' 404 NoContext, sample_db)
   \<and> serve sample_forms 100 (sample_request GET AnonymousUser [] Absent)
       (Call_edit_profile ''carol'') sample_db =
       (Render ''core/404.html'' 404 NoContext, sample_db)
   \<and> serve sample_forms 100 (sample_request POST AnonymousUser [(''text'', ''hi'')] Absent)
       (Call_delete_comment 1 1) sample_db = (Redirect ToLoginNext, sample_db)
   \<and> call_view sample_forms 100 (sample_request POST (LoggedIn bob) [] Absent)
       (Call_PostDetailView 1) sample_db = Inr (MethodNotAllowed, sample_db)
   \<and> serve sample_forms 100
       ((sample_request POST (LoggedIn bob) [(''text'', ''hi'')] Absent)\<lparr>csrf_ok := False\<rparr>)
       (Call_add_comment 1) sample_db = (Render ''core/403csrf.html'' 403 NoContext, sample_db)"
  using missing_record_and_csrf_pages[where fs = sample_forms and now = 100
      and request = "sample_request POST (LoggedIn bob) [(''text'', ''hi'')] Absent"
      and call = "Call_add_comment 99" and d = sample_db]
    missing_record_and_csrf_pages[where fs = sample_forms and now = 100
      and request = "sample_request GET (LoggedIn bob) [] Absent"
      and call = "Call_PostDetailView 99" and d = sample_db]
    missing_record_and_csrf_pages[where fs = sample_forms and now = 100
      and request = "sample_request GET AnonymousUser [] Absent"
      and call = "Call_edit_profile ''carol''" and d = sample_db]
    missing_record_and_csrf_pages[where fs = sample_forms and now = 100
      and request = "sample_request POST AnonymousUser [(''text'', ''hi'')] Absent"
      and call = "Call_delete_comment 1 1" and d = sample_db]
    missing_record_and_csrf_pages[where fs = sample_forms and now = 100
      and request = "sample_request POST (LoggedIn bob) [] Absent"
      and call = "Call_PostDetailView 1" and d = sample_db]
    missing_record_and_csrf_pages[where fs = sample_forms and now = 100
      and request = "(sample_request POST (LoggedIn bob) [(''text'', ''hi'')] Absent)\<lparr>csrf_ok := False\<rparr>"
      and call = "Call_add_comment 1" and d = sample_db]
  by (simp add: csrf_rejects_def sample_request_def sample_db_def sample_post_def
      alice_def bob_def)

text \<open>
  The claim as stated fails on three requests for a post that does not exist, each of
  which passes the CSRF check: an anonymous request to comment on it is redirected to
  the login page by the login gate; an anonymous GET of its detail page ends in a server
  error; and a POST of a logged-in user to its detail page is answered with 405.
\<close>

theorem anonymous_missing_record_counterexample:
  "target_missing (Call_add_comment 99) sample_db
   \<and> target_missing (Call_PostDetailView 99) sample_db
   \<and> \<not> csrf_rejects (sample_request POST AnonymousUser [(''text'', ''hi'')] Absent)
   \<and> serve sample_forms 100 (sample_request POST AnonymousUser [(''text'', ''hi'')] Absent)
       (Call_add_comment 99) sample_db = (Redirect ToLoginNext, sample_db)
   \<and> status (Redirect ToLoginNext) = 302
   \<and> \<not> csrf_rejects (sample_request GET AnonymousUser [] Absent)
   \<and> serve sample_forms 100 (sample_request GET AnonymousUser [] Absent)
       (Call_PostDetailView 99) sample_db = (ServerError, sample_db)
   \<and> status ServerError = 500
   \<and> \<not> csrf_rejects (sample_request POST (LoggedIn bob) [] Absent)
   \<and> serve sample_forms 100 (sample_request POST (LoggedIn bob) [] Absent)
       (Call_PostDetailView 99) sample_db = (MethodNotAllowed, sample_db)
   \<and> status MethodNotAllowed = 405"
  by (simp add: serve_def csrf_rejects_def add_comment_def login_required_def
      PostDetailView_def PostDetailView_get_object_def
      sample_request_def sample_db_def sample_post_def)

end
